theory Spec2Isabelle
  imports Main "HOL-Library.Sublist" "HOL-Library.Monad_Syntax"
begin

section \<open>Field schemas of the content pipeline\<close>

text \<open>
  A shallow embedding of the field schemas under \<^verbatim>\<open>src/schemas\<close>: \<^verbatim>\<open>slug\<close>,
  \<^verbatim>\<open>isodate\<close>, \<^verbatim>\<open>excerpt\<close>, \<^verbatim>\<open>file\<close> and \<^verbatim>\<open>image\<close>. A JavaScript string is
  modelled as a \<open>string\<close>, one \<open>char\<close> standing for one code unit, so that
  \<^verbatim>\<open>.length\<close> is \<open>length\<close> and \<^verbatim>\<open>.slice\<close> cuts between code units.
\<close>

subsection \<open>Data model\<close>

text \<open>The kind tag of an issue. The schemas themselves only ever report \<^verbatim>\<open>'custom'\<close>;
  the other tags are those of the string checks \<^verbatim>\<open>min\<close>, \<^verbatim>\<open>max\<close> and \<^verbatim>\<open>regex\<close>.\<close>

datatype issue_code = custom | too_small | too_big | invalid_string

record issue =
  code :: issue_code
  message :: string
  issue_path :: "string list"

text \<open>The file being validated: \<^verbatim>\<open>file.path\<close> and \<^verbatim>\<open>file.data.plain\<close>, which the
  type \<^verbatim>\<open>Partial<DataMap>\<close> allows to be \<^verbatim>\<open>undefined\<close> (\<open>None\<close>).\<close>

record vfile =
  path :: string
  plain :: "string option"

text \<open>\<^verbatim>\<open>config.output\<close>, of which the schemas read \<^verbatim>\<open>name\<close> and \<^verbatim>\<open>base\<close>.\<close>

record Output =
  name :: string
  base :: string

text \<open>What a schema callback reads and never writes: the path of the field inside the
  validated object (\<^verbatim>\<open>ctx.path\<close>, its keys as strings), \<^verbatim>\<open>meta.file\<close> and
  \<^verbatim>\<open>meta.config.output\<close>.\<close>

record ctx =
  ctx_path :: "string list"
  ctx_file :: vfile
  ctx_output :: Output

text \<open>What a schema run may change: the build-wide \<^verbatim>\<open>config.cache\<close> (a
  \<^verbatim>\<open>Map<string, any>\<close>; only \<^verbatim>\<open>has\<close> and \<^verbatim>\<open>set\<close> are used on it, and \<^verbatim>\<open>slug\<close> stores
  file paths), the issue list of the file being validated, and whatever lies outside the
  process (the asset directory), which only the asset resolver touches.\<close>

record 'w build =
  cache :: "string \<rightharpoonup> string"
  issues :: "issue list"
  world :: 'w

subsection \<open>The validator combinators\<close>

text \<open>The schemas are built from the combinators of \<^verbatim>\<open>./zod\<close>, which is not among the
  sources. Each of them is modelled from the specification, as far as the schemas use
  it. One point is left open, as a parameter \<open>eager\<close> of the refinements: whether a
  refinement is still run on a value for which an earlier check of the same chain has
  reported an issue. Section 4.2 describes the slug chain with \<open>eager = False\<close>; a
  validator that collects every issue of a value, in the way section 4.7 describes for
  the fields of an object, has \<open>eager = True\<close>.\<close>

text \<open>Modelled from the spec: the status of a parse, which \<^verbatim>\<open>./zod\<close> keeps. Sections 4.7
  and 7: a file is valid only if no issue was collected, and an issue never stops the
  validation of sibling fields. So a run is \<open>Valid\<close>, or \<open>Dirty\<close> once an issue has been
  reported, or \<open>Aborted\<close> when it could not go on.\<close>

datatype status = Valid | Dirty | Aborted

text \<open>Modelled from the spec: \<^verbatim>\<open>addIssue({ code, message })\<close>, the callback that \<^verbatim>\<open>./zod\<close>
  hands to a refinement or transform. Section 3: an issue carries its code, its message
  and the path within the validated object; section 4.3: it is attached to the field's
  path. It is appended to the issue list of the file.\<close>

definition addIssue :: "ctx \<Rightarrow> issue_code \<Rightarrow> string \<Rightarrow> 'w build \<Rightarrow> 'w build" where
  "addIssue c k msg st =
     st\<lparr>issues := issues st @ [\<lparr>code = k, message = msg, issue_path = ctx_path c\<rparr>]\<rparr>"

type_synonym 'w check = "ctx \<Rightarrow> string \<Rightarrow> 'w build \<Rightarrow> status \<times> 'w build"

text \<open>Modelled from the spec: \<^verbatim>\<open>string()\<close> of \<^verbatim>\<open>./zod\<close>. Section 4.2: the schema
  "accepts a string". The input of the model is a string already, so nothing is
  reported.\<close>

definition string_check :: "'w check" where
  "string_check c value st = (Valid, st)"

text \<open>Modelled from the spec: \<^verbatim>\<open>.min(n)\<close> and \<^verbatim>\<open>.max(n)\<close> of \<^verbatim>\<open>./zod\<close>. Section 4.2:
  "length in [3,200]", a syntactic check that "reports a descriptive issue" on failure.\<close>

definition min_check :: "nat \<Rightarrow> string \<Rightarrow> 'w check \<Rightarrow> 'w check" where
  "min_check n msg inner c value st =
     (case inner c value st of (s, st') \<Rightarrow>
        if length value < n then (Dirty, addIssue c too_small msg st') else (s, st'))"

definition max_check :: "nat \<Rightarrow> string \<Rightarrow> 'w check \<Rightarrow> 'w check" where
  "max_check n msg inner c value st =
     (case inner c value st of (s, st') \<Rightarrow>
        if n < length value then (Dirty, addIssue c too_big msg st') else (s, st'))"

text \<open>Modelled from the spec: \<^verbatim>\<open>.regex(pattern, message)\<close> of \<^verbatim>\<open>./zod\<close>. Section 4.2:
  the string "matches" the pattern, a syntactic check as well; the issue carries the
  message given. The pattern is passed as its matcher.\<close>

definition regex_check :: "(string \<Rightarrow> bool) \<Rightarrow> string \<Rightarrow> 'w check \<Rightarrow> 'w check" where
  "regex_check test msg inner c value st =
     (case inner c value st of (s, st') \<Rightarrow>
        if test value then (s, st') else (Dirty, addIssue c invalid_string msg st'))"

text \<open>Modelled from the spec: \<^verbatim>\<open>.refine(test, message)\<close> of \<^verbatim>\<open>./zod\<close>. Section 4.2 puts
  the reserved-word test after the syntactic checks and speaks of "syntax failure or
  reserved-word match", one or the other: with \<open>eager = False\<close> the test is made only on
  a value that passed what comes before it in the chain. Section 4.6, for the date:
  "fails with an issue if it cannot be parsed".\<close>

definition refine :: "bool \<Rightarrow> (string \<Rightarrow> bool) \<Rightarrow> string \<Rightarrow> 'w check \<Rightarrow> 'w check" where
  "refine eager ok msg inner c value st =
     (case inner c value st of (s, st') \<Rightarrow>
        if s = Aborted \<or> (s = Dirty \<and> \<not> eager) then (s, st')
        else if ok value then (s, st')
        else (Dirty, addIssue c custom msg st'))"

text \<open>Modelled from the spec: \<^verbatim>\<open>.superRefine(callback)\<close> of \<^verbatim>\<open>./zod\<close>. Section 4.2:
  "After syntactic checks pass, performs a Uniqueness Tracker reservation", and "On syntax
  failure or reserved-word match, reports a descriptive issue and does not attempt
  reservation". So with \<open>eager = False\<close> the callback runs only when everything before it
  in the chain has passed. It receives the value and the context and may call
  \<^verbatim>\<open>addIssue\<close>, which makes the run dirty.\<close>

definition superRefine :: "bool \<Rightarrow> (string \<Rightarrow> ctx \<Rightarrow> 'w build \<Rightarrow> 'w build) \<Rightarrow> 'w check \<Rightarrow> 'w check" where
  "superRefine eager f inner c value st =
     (case inner c value st of (s, st') \<Rightarrow>
        if s = Aborted \<or> (s = Dirty \<and> \<not> eager) then (s, st')
        else (let st'' = f value c st'
              in (if issues st'' = issues st' then s else Dirty, st'')))"

subsection \<open>slug.ts\<close>

text \<open>The pattern \<^verbatim>\<open>/^[a-z0-9]+(?:-[a-z0-9]+)*$/i\<close>. Under the \<^verbatim>\<open>i\<close> flag (and no
  \<^verbatim>\<open>u\<close> flag) the class \<^verbatim>\<open>[a-z0-9]\<close> matches the ASCII letters of either case and the
  digits, and nothing else.\<close>

definition to_lower :: "char \<Rightarrow> char" where
  "to_lower ch =
     (let n = (of_char ch :: nat) in if 65 \<le> n \<and> n \<le> 90 then char_of (n + 32) else ch)"

definition lower_or_digit :: "char \<Rightarrow> bool" where
  "lower_or_digit ch =
     (let n = (of_char ch :: nat) in (97 \<le> n \<and> n \<le> 122) \<or> (48 \<le> n \<and> n \<le> 57))"

definition slug_char :: "char \<Rightarrow> bool" where
  "slug_char ch = lower_or_digit (to_lower ch)"

text \<open>The matcher reads the whole string (\<^verbatim>\<open>^ ... $\<close>). The flag says whether the run
  \<^verbatim>\<open>[a-z0-9]+\<close> being read has a character already: a hyphen may only follow such a
  run, and must be followed by another one.\<close>

fun slug_runs :: "bool \<Rightarrow> string \<Rightarrow> bool" where
  "slug_runs seen [] = seen"
| "slug_runs seen (ch # rest) =
     (if slug_char ch then slug_runs True rest
      else ch = CHR ''-'' \<and> seen \<and> slug_runs False rest)"

definition slug_regex :: "string \<Rightarrow> bool" where
  "slug_regex value = slug_runs False value"

text \<open>\<^verbatim>\<open>path.join('.')\<close>.\<close>

fun join :: "string \<Rightarrow> string list \<Rightarrow> string" where
  "join sep [] = []"
| "join sep [k] = k"
| "join sep (k # k' # ks) = k @ sep @ join sep (k' # ks)"


text \<open>The cache key \<^verbatim>\<open>`schemas:slug:${by}:${value}`\<close>.\<close>

definition slug_key :: "string \<Rightarrow> string \<Rightarrow> string" where
  "slug_key by value = ''schemas:slug:'' @ by @ '':'' @ value"

text \<open>The message
  \<^verbatim>\<open>`duplicate slug '${value}' in '${file.path}:${path.join('.')}'`\<close>; \<open>CHR 0x27\<close> is the
  apostrophe.\<close>

definition duplicate_message :: "string \<Rightarrow> ctx \<Rightarrow> string" where
  "duplicate_message value c =
     ''duplicate slug '' @ [CHR 0x27] @ value @ [CHR 0x27] @ '' in '' @ [CHR 0x27]
       @ path (ctx_file c) @ '':'' @ join ''.'' (ctx_path c) @ [CHR 0x27]"

text \<open>The callback of \<^verbatim>\<open>superRefine\<close> (lines 15 to 21): report a duplicate when the key
  is in the cache, otherwise store the file's path under it.\<close>

definition slug_reserve :: "string \<Rightarrow> string \<Rightarrow> ctx \<Rightarrow> 'w build \<Rightarrow> 'w build" where
  "slug_reserve by value c st =
     (let key = slug_key by value
      in if key \<in> dom (cache st)
         then addIssue c custom (duplicate_message value c) st
         else st\<lparr>cache := (cache st)(key \<mapsto> path (ctx_file c))\<rparr>)"

text \<open>The chain of \<^verbatim>\<open>slug.ts\<close>, lines 10 to 21; the check written first in the source
  is the innermost here. The source gives the two length checks no message, and the
  texts below stand for the default ones of the library.\<close>

definition slug :: "bool \<Rightarrow> string \<Rightarrow> string list \<Rightarrow> 'w check" where
  "slug eager by reserved =
     superRefine eager (slug_reserve by)
       (refine eager (\<lambda>value. value \<notin> set reserved) ''Reserved slug''
          (regex_check slug_regex ''Invalid slug''
             (max_check 200 ''String must contain at most 200 character(s)''
                (min_check 3 ''String must contain at least 3 character(s)'' string_check))))"

text \<open>The defaults of the two parameters: \<^verbatim>\<open>by = 'global'\<close>, \<^verbatim>\<open>reserved = []\<close>.\<close>

definition slug_default :: "bool \<Rightarrow> 'w check" where
  "slug_default eager = slug eager ''global'' []"

subsection \<open>The asset module\<close>

text \<open>An image as the asset resolver describes it.\<close>

record Image =
  src :: string
  width :: int
  height :: int
  blurDataURL :: string
  blurWidth :: int
  blurHeight :: int

text \<open>The values a \<^verbatim>\<open>file\<close> or \<^verbatim>\<open>image\<close> field can end up with: a string, an image
  record, or \<^verbatim>\<open>null\<close>.\<close>

datatype field_value = Str string | Img Image | Null

text \<open>\<^verbatim>\<open>isRelativePath\<close> and \<^verbatim>\<open>processAsset\<close> are imported from \<^verbatim>\<open>../assets\<close>, which is
  not among the sources: the schemas are modelled for every such pair of functions.
  \<^verbatim>\<open>processAsset(input, from, name, base, isImage)\<close> is asynchronous and works on the
  world outside the build state; its promise resolves to a value (\<open>Inr\<close>) or rejects
  with an error, of which the schemas read the message (\<open>Inl\<close>).\<close>

record 'w assets =
  isRelativePath :: "string \<Rightarrow> bool"
  processAsset :: "string \<Rightarrow> string \<Rightarrow> string \<Rightarrow> string \<Rightarrow> bool \<Rightarrow> 'w \<Rightarrow> (string + field_value) \<times> 'w"

subsection \<open>file.ts\<close>

text \<open>An option left out is \<open>None\<close>; leaving out the whole options object is the same
  as leaving out each of its options. The schemas \<^verbatim>\<open>file\<close> and \<^verbatim>\<open>image\<close> are
  \<open>file_schema\<close> and \<open>image_schema\<close> here. The schema is \<^verbatim>\<open>string()\<close> followed by the
  transform, and the input is a string already. The resolver is called without its fifth
  argument, which makes it falsy. The value the promise resolves to is returned as it is;
  a rejection is caught, its message reported through \<^verbatim>\<open>addIssue\<close>, and \<^verbatim>\<open>null\<close>
  returned.\<close>

record FileOptions =
  file_allowNonRelativePath :: "bool option"

definition file_schema :: "'w assets \<Rightarrow> FileOptions \<Rightarrow> ctx \<Rightarrow> string \<Rightarrow> 'w build \<Rightarrow> status \<times> field_value \<times> 'w build" where
  "file_schema A opts c value st =
     (let allowNonRelativePath = (case file_allowNonRelativePath opts of None \<Rightarrow> True | Some b \<Rightarrow> b)
      in if allowNonRelativePath \<and> \<not> isRelativePath A value then (Valid, Str value, st)
         else (case processAsset A value (path (ctx_file c)) (name (ctx_output c))
                      (base (ctx_output c)) False (world st) of
                 (Inr url, w) \<Rightarrow> (Valid, url, st\<lparr>world := w\<rparr>)
               | (Inl err_message, w) \<Rightarrow>
                   (Dirty, Null, addIssue c custom err_message (st\<lparr>world := w\<rparr>))))"

subsection \<open>image.ts\<close>

text \<open>As \<^verbatim>\<open>file.ts\<close>, with the other default, a record for the allowed non-relative
  path, and the resolver asked for an image.\<close>

record ImageOptions =
  image_allowNonRelativePath :: "bool option"

definition image_schema :: "'w assets \<Rightarrow> ImageOptions \<Rightarrow> ctx \<Rightarrow> string \<Rightarrow> 'w build \<Rightarrow> status \<times> field_value \<times> 'w build" where
  "image_schema A opts c value st =
     (let allowNonRelativePath = (case image_allowNonRelativePath opts of None \<Rightarrow> False | Some b \<Rightarrow> b)
      in if allowNonRelativePath \<and> \<not> isRelativePath A value
         then (Valid,
               Img \<lparr>src = value, width = 0, height = 0, blurDataURL = [], blurWidth = 0,
                    blurHeight = 0\<rparr>,
               st)
         else (case processAsset A value (path (ctx_file c)) (name (ctx_output c))
                      (base (ctx_output c)) True (world st) of
                 (Inr img, w) \<Rightarrow> (Valid, img, st\<lparr>world := w\<rparr>)
               | (Inl err_message, w) \<Rightarrow>
                   (Dirty, Null, addIssue c custom err_message (st\<lparr>world := w\<rparr>))))"

subsection \<open>excerpt.ts\<close>

text \<open>What a callback can throw.\<close>

datatype error = TypeError | RangeError

text \<open>\<^verbatim>\<open>String.prototype.slice(start, end)\<close> for integral arguments: a negative index
  counts from the end of the string, and both are clamped to the string.\<close>

definition slice :: "string \<Rightarrow> int \<Rightarrow> int \<Rightarrow> string" where
  "slice s start fin =
     (let len = int (length s);
          lo = (if start < 0 then max (len + start) 0 else min start len);
          hi = (if fin < 0 then max (len + fin) 0 else min fin len)
      in if hi \<le> lo then [] else take (nat (hi - lo)) (drop (nat lo) s))"

record ExcerptOptions =
  excerpt_length :: "int option"

text \<open>The schema is \<^verbatim>\<open>custom<string>()\<close>, which checks nothing, followed by the
  transform. The declared value may be \<^verbatim>\<open>null\<close> or \<^verbatim>\<open>undefined\<close> (\<open>None\<close>; the
  test \<^verbatim>\<open>== null\<close> does not tell them apart). Calling \<^verbatim>\<open>slice\<close> on such a value
  throws a \<^verbatim>\<open>TypeError\<close>.\<close>

definition excerpt :: "ExcerptOptions \<Rightarrow> ctx \<Rightarrow> string option \<Rightarrow> 'w build \<Rightarrow> error + status \<times> string \<times> 'w build" where
  "excerpt opts c value st =
     (let len = (case excerpt_length opts of None \<Rightarrow> 260 | Some n \<Rightarrow> n);
          value' = (if value = None \<and> plain (ctx_file c) \<noteq> None then plain (ctx_file c) else value)
      in case value' of
           None \<Rightarrow> Inl TypeError
         | Some text \<Rightarrow> Inr (Valid, slice text 0 len, st))"

subsection \<open>The dates of the runtime\<close>

text \<open>\<^verbatim>\<open>isodate.ts\<close> calls \<^verbatim>\<open>Date.parse\<close>, \<^verbatim>\<open>new Date(value)\<close> and \<^verbatim>\<open>toISOString\<close> of the
  JavaScript runtime. They are modelled after the language standard. A time value is a
  whole number of milliseconds since the start of 1970 (UTC), an \<open>int\<close> here, and a day
  is the number of its day since then. The functions keep the standard's names; those on
  days take the day where the standard's take the time value.\<close>

definition DayFromYear :: "int \<Rightarrow> int" where
  "DayFromYear y = 365 * (y - 1970) + (y - 1969) div 4 - (y - 1901) div 100 + (y - 1601) div 400"

definition InLeapYear :: "int \<Rightarrow> int" where
  "InLeapYear y = (if y mod 4 \<noteq> 0 then 0 else if y mod 100 \<noteq> 0 then 1 else if y mod 400 \<noteq> 0 then 0 else 1)"

text \<open>The year of a day is the largest year that does not start after it. It is computed
  from an estimate that is off by one year at most.\<close>

definition YearFromDay :: "int \<Rightarrow> int" where
  "YearFromDay d =
     (let y = 1970 + (400 * d) div 146097
      in if DayFromYear (y + 1) \<le> d then y + 1 else if DayFromYear y \<le> d then y else y - 1)"

text \<open>The month (from 0) of a day within its year, the day within the year on which a
  month starts, and the day of the month (from 1), by the standard's table.\<close>

definition MonthFromDay :: "int \<Rightarrow> int \<Rightarrow> int" where
  "MonthFromDay dwy leap =
     (if dwy < 31 then 0 else if dwy < 59 + leap then 1 else if dwy < 90 + leap then 2
      else if dwy < 120 + leap then 3 else if dwy < 151 + leap then 4
      else if dwy < 181 + leap then 5 else if dwy < 212 + leap then 6
      else if dwy < 243 + leap then 7 else if dwy < 273 + leap then 8
      else if dwy < 304 + leap then 9 else if dwy < 334 + leap then 10 else 11)"

definition MonthStart :: "int \<Rightarrow> int \<Rightarrow> int" where
  "MonthStart m leap =
     (if m = 0 then 0 else if m = 1 then 31 else if m = 2 then 59 + leap
      else if m = 3 then 90 + leap else if m = 4 then 120 + leap
      else if m = 5 then 151 + leap else if m = 6 then 181 + leap
      else if m = 7 then 212 + leap else if m = 8 then 243 + leap
      else if m = 9 then 273 + leap else if m = 10 then 304 + leap
      else if m = 11 then 334 + leap else 365 + leap)"

definition DateFromDay :: "int \<Rightarrow> int \<Rightarrow> int" where
  "DateFromDay dwy leap = dwy - MonthStart (MonthFromDay dwy leap) leap + 1"

definition DaysInMonth :: "int \<Rightarrow> int \<Rightarrow> int" where
  "DaysInMonth m leap = MonthStart (m + 1) leap - MonthStart m leap"

definition MakeDay :: "int \<Rightarrow> int \<Rightarrow> int \<Rightarrow> int" where
  "MakeDay year month date = DayFromYear year + MonthStart month (InLeapYear year) + date - 1"

definition Day :: "int \<Rightarrow> int" where "Day t = t div 86400000"

definition HourFromTime :: "int \<Rightarrow> int" where "HourFromTime t = (t div 3600000) mod 24"

definition MinFromTime :: "int \<Rightarrow> int" where "MinFromTime t = (t div 60000) mod 60"

definition SecFromTime :: "int \<Rightarrow> int" where "SecFromTime t = (t div 1000) mod 60"

definition msFromTime :: "int \<Rightarrow> int" where "msFromTime t = t mod 1000"

definition MakeTime :: "int \<Rightarrow> int \<Rightarrow> int \<Rightarrow> int \<Rightarrow> int" where
  "MakeTime h m s ms = h * 3600000 + m * 60000 + s * 1000 + ms"

definition MakeDate :: "int \<Rightarrow> int \<Rightarrow> int" where
  "MakeDate day time = day * 86400000 + time"

text \<open>A date holds a time value of at most 8.64e15 in absolute value, or \<^verbatim>\<open>NaN\<close>
  (\<open>None\<close>).\<close>

definition TimeClip :: "int \<Rightarrow> int option" where
  "TimeClip t = (if 8640000000000000 < \<bar>t\<bar> then None else Some t)"

text \<open>Decimal digits: a number padded with zeros to a given width, and the reading of a
  given number of digits from the front of a string.\<close>

definition digit_char :: "int \<Rightarrow> char" where
  "digit_char k = char_of (48 + k)"

definition digit_value :: "char \<Rightarrow> int option" where
  "digit_value ch = (let n = (of_char ch :: int) in if 48 \<le> n \<and> n \<le> 57 then Some (n - 48) else None)"

fun pad :: "nat \<Rightarrow> int \<Rightarrow> string" where
  "pad 0 k = []"
| "pad (Suc n) k = pad n (k div 10) @ [digit_char (k mod 10)]"

fun take_digits :: "nat \<Rightarrow> int \<Rightarrow> string \<Rightarrow> (int \<times> string) option" where
  "take_digits 0 acc s = Some (acc, s)"
| "take_digits (Suc n) acc [] = None"
| "take_digits (Suc n) acc (ch # s) =
     (case digit_value ch of None \<Rightarrow> None | Some d \<Rightarrow> take_digits n (10 * acc + d) s)"

definition expect :: "char \<Rightarrow> string \<Rightarrow> string option" where
  "expect ch s = (case s of [] \<Rightarrow> None | c # rest \<Rightarrow> if c = ch then Some rest else None)"

text \<open>\<^verbatim>\<open>toISOString\<close> prints \<^verbatim>\<open>YYYY-MM-DDTHH:mm:ss.sssZ\<close>, the year with four digits
  when it lies between 0 and 9999 and with a sign and six digits otherwise.\<close>

definition year_text :: "int \<Rightarrow> string" where
  "year_text y =
     (if 0 \<le> y \<and> y \<le> 9999 then pad 4 y
      else (if y < 0 then ''-'' else ''+'') @ pad 6 \<bar>y\<bar>)"

definition Date_toISOString :: "int \<Rightarrow> string" where
  "Date_toISOString t =
     (let y = YearFromDay (Day t);
          leap = InLeapYear y;
          dwy = Day t - DayFromYear y
      in year_text y @ ''-'' @ pad 2 (MonthFromDay dwy leap + 1) @ ''-''
           @ pad 2 (DateFromDay dwy leap) @ ''T'' @ pad 2 (HourFromTime t) @ '':''
           @ pad 2 (MinFromTime t) @ '':'' @ pad 2 (SecFromTime t) @ ''.''
           @ pad 3 (msFromTime t) @ ''Z'')"

text \<open>Reading that format back. The year \<^verbatim>\<open>-000000\<close> is not allowed, and every field
  has to be in range.\<close>

definition parse_year :: "string \<Rightarrow> (int \<times> string) option" where
  "parse_year s =
     (case s of
        [] \<Rightarrow> None
      | ch # rest \<Rightarrow>
          if ch = CHR ''+'' then take_digits 6 0 rest
          else if ch = CHR ''-''
          then (case take_digits 6 0 rest of
                  None \<Rightarrow> None
                | Some (y, r) \<Rightarrow> if y = 0 then None else Some (- y, r))
          else take_digits 4 0 s)"

definition parse_date_time :: "string \<Rightarrow> int option" where
  "parse_date_time s0 = do {
     (y, s) \<leftarrow> parse_year s0;
     s \<leftarrow> expect CHR ''-'' s;
     (mo, s) \<leftarrow> take_digits 2 0 s;
     s \<leftarrow> expect CHR ''-'' s;
     (d, s) \<leftarrow> take_digits 2 0 s;
     s \<leftarrow> expect CHR ''T'' s;
     (h, s) \<leftarrow> take_digits 2 0 s;
     s \<leftarrow> expect CHR '':'' s;
     (mi, s) \<leftarrow> take_digits 2 0 s;
     s \<leftarrow> expect CHR '':'' s;
     (sec, s) \<leftarrow> take_digits 2 0 s;
     s \<leftarrow> expect CHR ''.'' s;
     (ms, s) \<leftarrow> take_digits 3 0 s;
     s \<leftarrow> expect CHR ''Z'' s;
     if s = [] \<and> 1 \<le> mo \<and> mo \<le> 12 \<and> 1 \<le> d \<and> d \<le> DaysInMonth (mo - 1) (InLeapYear y)
        \<and> h \<le> 23 \<and> mi \<le> 59 \<and> sec \<le> 59
     then Some (MakeDate (MakeDay y (mo - 1) d) (MakeTime h mi sec ms))
     else None
   }"

text \<open>\<^verbatim>\<open>Date.parse\<close>. The standard fixes its result on the format above. On every other
  string, the shorter forms of the format among them, the result is left to the function
  \<open>other\<close>, for which nothing is assumed.\<close>

definition Date_parse :: "(string \<Rightarrow> int option) \<Rightarrow> string \<Rightarrow> int option" where
  "Date_parse other s =
     (case parse_date_time s of
        Some t \<Rightarrow> TimeClip t
      | None \<Rightarrow> (case other s of None \<Rightarrow> None | Some t \<Rightarrow> TimeClip t))"

subsection \<open>isodate.ts\<close>

text \<open>The refinement reports \<^verbatim>\<open>'Invalid date string'\<close>; the transform is applied to a
  value that passed it (section 4.6: "on success normalizes"). \<^verbatim>\<open>new Date(value)\<close> parses the string as \<^verbatim>\<open>Date.parse\<close> does,
  and \<^verbatim>\<open>toISOString\<close> throws a \<^verbatim>\<open>RangeError\<close> on a date that holds \<^verbatim>\<open>NaN\<close>.\<close>

definition isodate :: "bool \<Rightarrow> (string \<Rightarrow> int option) \<Rightarrow> ctx \<Rightarrow> string \<Rightarrow> 'w build \<Rightarrow> error + status \<times> string \<times> 'w build" where
  "isodate eager other c value st =
     (case refine eager (\<lambda>value. Date_parse other value \<noteq> None) ''Invalid date string''
             string_check c value st of
        (s, st') \<Rightarrow>
          if s \<noteq> Valid then Inr (s, value, st')
          else (case Date_parse other value of
                  None \<Rightarrow> Inl RangeError
                | Some t \<Rightarrow> Inr (Valid, Date_toISOString t, st')))"

section \<open>Properties\<close>

subsection \<open>The slug chain\<close>

text \<open>A value that passes the four checks reaches the reservation, whatever \<open>eager\<close>
  is; any other value is reported, and leaves the cache as it was when \<open>eager\<close> is
  \<open>False\<close>.\<close>

lemma slug_checks_pass:
  assumes "3 \<le> length v" "length v \<le> 200" "slug_regex v" "v \<notin> set reserved"
  shows "slug eager by reserved c v st =
           (let st' = slug_reserve by v c st in (if issues st' = issues st then Valid else Dirty, st'))"
  using assms
  by (simp add: slug_def superRefine_def refine_def regex_check_def max_check_def
        min_check_def string_check_def)

lemma slug_reserve_grows:
  "\<exists>more. issues (slug_reserve by v c st) = issues st @ more"
  by (simp add: slug_reserve_def addIssue_def Let_def)

lemma slug_reserve_world: "world (slug_reserve by v c st) = world st"
  by (simp add: slug_reserve_def addIssue_def Let_def)

lemma slug_checks_fail:
  assumes "\<not> (3 \<le> length v \<and> length v \<le> 200 \<and> slug_regex v \<and> v \<notin> set reserved)"
  shows "fst (slug eager by reserved c v st) = Dirty"
    and "world (snd (slug eager by reserved c v st)) = world st"
    and "issues (snd (slug eager by reserved c v st)) \<noteq> issues st"
proof -
  define checks :: "'a check" where "checks =
     refine eager (\<lambda>value. value \<notin> set reserved) ''Reserved slug''
       (regex_check slug_regex ''Invalid slug''
          (max_check 200 ''String must contain at most 200 character(s)''
             (min_check 3 ''String must contain at least 3 character(s)'' string_check)))"
  obtain s st' where r: "checks c v st = (s, st')"
    by (cases "checks c v st")
  have inner: "s = Dirty" "world st' = world st"
    "\<exists>more. more \<noteq> [] \<and> issues st' = issues st @ more"
    using assms r
    by (auto simp add: checks_def refine_def regex_check_def max_check_def min_check_def
        string_check_def addIssue_def split: if_splits)
  have whole: "slug eager by reserved c v st =
      (if \<not> eager then (s, st')
       else (let st'' = slug_reserve by v c st'
             in (if issues st'' = issues st' then s else Dirty, st'')))"
    using r inner(1) by (simp add: slug_def superRefine_def checks_def [symmetric] Let_def)
  obtain more where more: "more \<noteq> []" "issues st' = issues st @ more"
    using inner(3) by blast
  obtain further where further: "issues (slug_reserve by v c st') = issues st' @ further"
    using slug_reserve_grows by blast
  show "fst (slug eager by reserved c v st) = Dirty"
    using inner(1) by (simp add: whole Let_def)
  show "world (snd (slug eager by reserved c v st)) = world st"
    using inner(2) by (simp add: whole Let_def slug_reserve_world)
  show "issues (snd (slug eager by reserved c v st)) \<noteq> issues st"
    using more further by (simp add: whole Let_def)
qed


lemma slug_reserve_fresh:
  "slug_key by v \<notin> dom (cache st) \<Longrightarrow>
     slug_reserve by v c st = st\<lparr>cache := (cache st)(slug_key by v \<mapsto> path (ctx_file c))\<rparr>"
  by (simp add: slug_reserve_def)

lemma slug_reserve_taken:
  "slug_key by v \<in> dom (cache st) \<Longrightarrow>
     slug_reserve by v c st = addIssue c custom (duplicate_message v c) st"
  by (simp add: slug_reserve_def)

lemma to_lower_idem: "to_lower (to_lower ch) = to_lower ch"
  by (simp add: to_lower_def Let_def)

lemma slug_char_to_lower: "slug_char (to_lower ch) = slug_char ch"
  by (simp add: slug_char_def to_lower_idem)

lemma to_lower_other: "\<not> slug_char ch \<Longrightarrow> to_lower ch = ch"
  by (auto simp add: slug_char_def to_lower_def lower_or_digit_def Let_def)


lemma slug_runs_to_lower: "slug_runs seen (map to_lower v) = slug_runs seen v"
  by (induction v arbitrary: seen) (auto simp add: slug_char_to_lower to_lower_other)

lemma slug_regex_case: "map to_lower v = map to_lower w \<Longrightarrow> slug_regex v = slug_regex w"
  by (metis slug_regex_def slug_runs_to_lower)

lemma slug_key_inj: "slug_key by v = slug_key by w \<longleftrightarrow> v = w"
  by (simp add: slug_key_def)

text \<open>The class under the \<^verbatim>\<open>i\<close> flag, by character codes: the lower-case letters,
  the upper-case letters and the digits.\<close>

lemma slug_char_ranges:
  "slug_char ch \<longleftrightarrow>
     (let n = (of_char ch :: nat)
      in (97 \<le> n \<and> n \<le> 122) \<or> (65 \<le> n \<and> n \<le> 90) \<or> (48 \<le> n \<and> n \<le> 57))"
  by (auto simp add: slug_char_def to_lower_def lower_or_digit_def Let_def)

lemma slug_my_post_bang: "\<not> slug_regex ''My Post!''"
  by (simp add: slug_regex_def slug_char_def to_lower_def lower_or_digit_def)


lemma join_Nil_Cons: "rs \<noteq> [] \<Longrightarrow> join sep ([] # rs) = sep @ join sep rs"
  by (cases rs) simp_all



subsection \<open>Reserving a slug twice\<close>

text \<open>
  Claim C1. Take any namespace \<open>by\<close> and any slug \<open>v\<close> that passes the length, pattern
  and reserved-word checks, in a build whose cache does not hold the key of \<open>(by, v)\<close>
  yet. Two files validate \<open>v\<close> one after the other, sharing the cache, each with an
  issue list of its own. The first run succeeds without an issue and stores its file's
  path under the key. The second run reports exactly one issue, the duplicate, and leaves
  the cache alone: the key still maps to the first file's path. The two contexts \<open>c1\<close>
  and \<open>c2\<close> are arbitrary, so the same holds whichever of two given files comes first,
  and so is \<open>eager\<close>.
\<close>

theorem slug_reserved_once:
  assumes "3 \<le> length v" and "length v \<le> 200" and "slug_regex v" and "v \<notin> set reserved"
    and "slug_key by v \<notin> dom (cache st)"
  shows "let r1 = slug eager by reserved c1 v st;
             r2 = slug eager by reserved c2 v ((snd r1)\<lparr>issues := []\<rparr>)
         in fst r1 = Valid \<and> issues (snd r1) = issues st
            \<and> cache (snd r1) = (cache st)(slug_key by v \<mapsto> path (ctx_file c1))
            \<and> fst r2 = Dirty
            \<and> issues (snd r2) =
                [\<lparr>code = custom, message = duplicate_message v c2, issue_path = ctx_path c2\<rparr>]
            \<and> cache (snd r2) = cache (snd r1)
            \<and> cache (snd r2) (slug_key by v) = Some (path (ctx_file c1))"
proof -
  let ?st1 = "st\<lparr>cache := (cache st)(slug_key by v \<mapsto> path (ctx_file c1))\<rparr>"
  have r1: "slug eager by reserved c1 v st = (Valid, ?st1)"
    using assms by (simp add: slug_checks_pass slug_reserve_fresh)
  have taken: "slug_key by v \<in> dom (cache (?st1\<lparr>issues := []\<rparr>))"
    by simp
  have r2: "slug eager by reserved c2 v (?st1\<lparr>issues := []\<rparr>) =
              (Dirty, addIssue c2 custom (duplicate_message v c2) (?st1\<lparr>issues := []\<rparr>))"
    using assms(1-4) taken by (simp add: slug_checks_pass slug_reserve_taken addIssue_def)
  show ?thesis
    by (simp add: r1 r2 addIssue_def)
qed

text \<open>The slug \<^verbatim>\<open>my-post\<close> in \<^verbatim>\<open>content/a.md\<close> and then in \<^verbatim>\<open>content/b.md\<close>, and in
  the other order, with \<^verbatim>\<open>admin\<close> reserved and an empty cache.\<close>

theorem slug_reserved_once_witness:
  "3 \<le> length ''my-post'' \<and> length ''my-post'' \<le> 200 \<and> slug_regex ''my-post''
   \<and> ''my-post'' \<notin> set [''admin'']
   \<and> slug_key ''global'' ''my-post'' \<notin> dom (cache \<lparr>cache = Map.empty, issues = [], world = ()\<rparr>)
   \<and> (let a = \<lparr>ctx_path = [''slug''], ctx_file = \<lparr>path = ''content/a.md'', plain = None\<rparr>,
                ctx_output = \<lparr>name = ''[name]-[hash:8].[ext]'', base = ''/static/''\<rparr>\<rparr>;
            b = \<lparr>ctx_path = [''slug''], ctx_file = \<lparr>path = ''content/b.md'', plain = None\<rparr>,
                ctx_output = \<lparr>name = ''[name]-[hash:8].[ext]'', base = ''/static/''\<rparr>\<rparr>;
            st = \<lparr>cache = Map.empty, issues = [], world = ()\<rparr>;
            ab1 = slug True ''global'' [''admin''] a ''my-post'' st;
            ab2 = slug True ''global'' [''admin''] b ''my-post'' ((snd ab1)\<lparr>issues := []\<rparr>);
            ba1 = slug True ''global'' [''admin''] b ''my-post'' st;
            ba2 = slug True ''global'' [''admin''] a ''my-post'' ((snd ba1)\<lparr>issues := []\<rparr>)
        in fst ab1 = Valid \<and> issues (snd ab1) = [] \<and> fst ab2 = Dirty
           \<and> length (issues (snd ab2)) = 1
           \<and> cache (snd ab2) (slug_key ''global'' ''my-post'') = Some ''content/a.md''
           \<and> fst ba1 = Valid \<and> issues (snd ba1) = [] \<and> fst ba2 = Dirty
           \<and> length (issues (snd ba2)) = 1
           \<and> cache (snd ba2) (slug_key ''global'' ''my-post'') = Some ''content/b.md'')"
proof -
  let ?a = "\<lparr>ctx_path = [''slug''], ctx_file = \<lparr>path = ''content/a.md'', plain = None\<rparr>,
             ctx_output = \<lparr>name = ''[name]-[hash:8].[ext]'', base = ''/static/''\<rparr>\<rparr>"
  let ?b = "\<lparr>ctx_path = [''slug''], ctx_file = \<lparr>path = ''content/b.md'', plain = None\<rparr>,
             ctx_output = \<lparr>name = ''[name]-[hash:8].[ext]'', base = ''/static/''\<rparr>\<rparr>"
  let ?st = "\<lparr>cache = Map.empty, issues = [], world = ()\<rparr>"
  have h: "3 \<le> length ''my-post''" "length ''my-post'' \<le> 200" "slug_regex ''my-post''"
    "''my-post'' \<notin> set [''admin'']" "slug_key ''global'' ''my-post'' \<notin> dom (cache ?st)"
    by (simp_all add: slug_regex_def slug_char_def to_lower_def lower_or_digit_def)
  note ab = slug_reserved_once [OF h, where eager = True and ?c1.0 = ?a and ?c2.0 = ?b]
  note ba = slug_reserved_once [OF h, where eager = True and ?c1.0 = ?b and ?c2.0 = ?a]
  show ?thesis
    using h ab ba by (simp add: Let_def)
qed

subsection \<open>The duplicate issue\<close>




subsection \<open>The contract of the slug schema\<close>


text \<open>Nothing more can be said of the cache for \<open>eager = True\<close>: a library that goes on
  after the failed pattern check reserves the key of \<^verbatim>\<open>My Post!\<close> all the same.\<close>

lemma slug_eager_reserves:
  "slug_key by ''My Post!'' \<notin> dom (cache st) \<Longrightarrow>
     cache (snd (slug True by [] c ''My Post!'' st))
       = (cache st)(slug_key by ''My Post!'' \<mapsto> path (ctx_file c))"
  using slug_my_post_bang
  by (simp add: slug_def superRefine_def refine_def regex_check_def max_check_def
      min_check_def string_check_def slug_reserve_def addIssue_def Let_def)


subsection \<open>Slugs that differ in case\<close>

text \<open>
  Claim C9. The pattern check ignores case, the uniqueness check does not. Let \<open>v\<close> and
  \<open>w\<close> be different strings that are equal once their upper-case letters are folded to
  lower case, \<open>v\<close> a valid slug, neither of them reserved, and neither key in the cache.
  Then \<open>w\<close> passes the pattern check as well, the two cache keys differ, and validating
  \<open>v\<close> in one file and then \<open>w\<close> in another gives two successes and no duplicate-slug
  issue, each key mapped to its own file's path.
\<close>

theorem slug_case_sensitive:
  assumes "map to_lower v = map to_lower w" and "v \<noteq> w"
    and "3 \<le> length v" and "length v \<le> 200" and "slug_regex v"
    and "v \<notin> set reserved" and "w \<notin> set reserved"
    and "slug_key by v \<notin> dom (cache st)" and "slug_key by w \<notin> dom (cache st)"
  shows "slug_regex w \<and> slug_key by v \<noteq> slug_key by w
     \<and> (let r1 = slug eager by reserved c1 v st;
             r2 = slug eager by reserved c2 w ((snd r1)\<lparr>issues := []\<rparr>)
         in fst r1 = Valid \<and> issues (snd r1) = issues st
            \<and> fst r2 = Valid \<and> issues (snd r2) = []
            \<and> cache (snd r2) = (cache st)(slug_key by v \<mapsto> path (ctx_file c1),
                                          slug_key by w \<mapsto> path (ctx_file c2)))"
proof -
  have len: "length w = length v"
    using assms(1) by (metis length_map)
  have re: "slug_regex w"
    using assms(1,5) slug_regex_case by blast
  have keys: "slug_key by v \<noteq> slug_key by w"
    using assms(2) by (simp add: slug_key_inj)
  let ?st1 = "st\<lparr>cache := (cache st)(slug_key by v \<mapsto> path (ctx_file c1))\<rparr>"
  have r1: "slug eager by reserved c1 v st = (Valid, ?st1)"
    using assms(3-6,8) by (simp add: slug_checks_pass slug_reserve_fresh)
  have fresh: "slug_key by w \<notin> dom (cache (?st1\<lparr>issues := []\<rparr>))"
    using assms(9) keys by auto
  have r2: "slug eager by reserved c2 w (?st1\<lparr>issues := []\<rparr>) =
      (Valid, ?st1\<lparr>issues := [], cache := (cache ?st1)(slug_key by w \<mapsto> path (ctx_file c2))\<rparr>)"
    using assms(3,4,7) len re slug_reserve_fresh [OF fresh, of c2]
    by (simp add: slug_checks_pass)
  show ?thesis
    using re keys by (simp add: r1 r2)
qed

text \<open>The slugs \<^verbatim>\<open>My-Post\<close> and \<^verbatim>\<open>my-post\<close> in the default namespace.\<close>

theorem slug_case_sensitive_witness:
  "map to_lower ''My-Post'' = map to_lower ''my-post'' \<and> ''My-Post'' \<noteq> ''my-post''
   \<and> 3 \<le> length ''My-Post'' \<and> length ''My-Post'' \<le> 200 \<and> slug_regex ''My-Post''
   \<and> ''My-Post'' \<notin> set [''admin''] \<and> ''my-post'' \<notin> set [''admin'']
   \<and> slug_regex ''my-post''
   \<and> slug_key ''global'' ''My-Post'' \<noteq> slug_key ''global'' ''my-post''
   \<and> (let a = \<lparr>ctx_path = [''slug''], ctx_file = \<lparr>path = ''content/a.md'', plain = None\<rparr>,
                ctx_output = \<lparr>name = ''[name]-[hash:8].[ext]'', base = ''/static/''\<rparr>\<rparr>;
            b = \<lparr>ctx_path = [''slug''], ctx_file = \<lparr>path = ''content/b.md'', plain = None\<rparr>,
                ctx_output = \<lparr>name = ''[name]-[hash:8].[ext]'', base = ''/static/''\<rparr>\<rparr>;
            st = \<lparr>cache = Map.empty, issues = [], world = ()\<rparr>;
            r1 = slug True ''global'' [''admin''] a ''My-Post'' st;
            r2 = slug True ''global'' [''admin''] b ''my-post'' ((snd r1)\<lparr>issues := []\<rparr>)
        in fst r1 = Valid \<and> issues (snd r1) = [] \<and> fst r2 = Valid \<and> issues (snd r2) = []
           \<and> cache (snd r2) (slug_key ''global'' ''My-Post'') = Some ''content/a.md''
           \<and> cache (snd r2) (slug_key ''global'' ''my-post'') = Some ''content/b.md'')"
proof -
  let ?a = "\<lparr>ctx_path = [''slug''], ctx_file = \<lparr>path = ''content/a.md'', plain = None\<rparr>,
             ctx_output = \<lparr>name = ''[name]-[hash:8].[ext]'', base = ''/static/''\<rparr>\<rparr>"
  let ?b = "\<lparr>ctx_path = [''slug''], ctx_file = \<lparr>path = ''content/b.md'', plain = None\<rparr>,
             ctx_output = \<lparr>name = ''[name]-[hash:8].[ext]'', base = ''/static/''\<rparr>\<rparr>"
  let ?st = "\<lparr>cache = Map.empty, issues = [], world = ()\<rparr>"
  have fold: "map to_lower ''My-Post'' = map to_lower ''my-post''"
    by code_simp
  have rest: "''My-Post'' \<noteq> ''my-post''"
    "3 \<le> length ''My-Post''" "length ''My-Post'' \<le> 200" "slug_regex ''My-Post''"
    "''My-Post'' \<notin> set [''admin'']" "''my-post'' \<notin> set [''admin'']"
    "slug_key ''global'' ''My-Post'' \<notin> dom (cache ?st)"
    "slug_key ''global'' ''my-post'' \<notin> dom (cache ?st)"
    by (simp_all add: slug_regex_def slug_char_def to_lower_def lower_or_digit_def)
  note h = fold rest
  have keys: "slug_key ''global'' ''My-Post'' \<noteq> slug_key ''global'' ''my-post''"
    by (simp add: slug_key_def)
  show ?thesis
    using h keys slug_case_sensitive [OF h, where eager = True and ?c1.0 = ?a and ?c2.0 = ?b]
    by (simp add: Let_def)
qed

subsection \<open>File and image references\<close>

text \<open>When the resolver is reached, the outcome is the resolver's.\<close>

lemma file_schema_resolves:
  assumes "isRelativePath A v \<or> file_allowNonRelativePath opts = Some False"
  shows "file_schema A opts c v st =
           (case processAsset A v (path (ctx_file c)) (name (ctx_output c)) (base (ctx_output c))
                   False (world st) of
              (Inr url, w) \<Rightarrow> (Valid, url, st\<lparr>world := w\<rparr>)
            | (Inl err_message, w) \<Rightarrow>
                (Dirty, Null, addIssue c custom err_message (st\<lparr>world := w\<rparr>)))"
  using assms by (auto simp add: file_schema_def split: option.splits)

lemma image_schema_resolves:
  assumes "isRelativePath A v \<or> image_allowNonRelativePath opts \<noteq> Some True"
  shows "image_schema A opts c v st =
           (case processAsset A v (path (ctx_file c)) (name (ctx_output c)) (base (ctx_output c))
                   True (world st) of
              (Inr img, w) \<Rightarrow> (Valid, img, st\<lparr>world := w\<rparr>)
            | (Inl err_message, w) \<Rightarrow>
                (Dirty, Null, addIssue c custom err_message (st\<lparr>world := w\<rparr>)))"
  using assms by (auto simp add: image_schema_def split: option.splits)

text \<open>
  Claim C5, as amended. For a path that \<^verbatim>\<open>isRelativePath\<close> does not hold of, and whatever
  the asset resolver would do: the file schema configured to allow such paths returns the
  string unchanged, and the image schema configured to allow them returns an image record
  whose \<^verbatim>\<open>src\<close> is the string unchanged; in both cases the state, the world of the
  resolver included, is left as it was, so the resolver has not run. The defaults differ:
  with no option given the file schema returns the string in the same way, while the
  image schema hands the path to the resolver.
\<close>

theorem non_relative_allowed:
  assumes "\<not> isRelativePath A v"
  shows "file_schema A \<lparr>file_allowNonRelativePath = Some True\<rparr> c v st = (Valid, Str v, st)
     \<and> (\<exists>img. image_schema A \<lparr>image_allowNonRelativePath = Some True\<rparr> c v st = (Valid, Img img, st)
            \<and> src img = v)
     \<and> file_schema A \<lparr>file_allowNonRelativePath = None\<rparr> c v st = (Valid, Str v, st)
     \<and> image_schema A \<lparr>image_allowNonRelativePath = None\<rparr> c v st =
         (case processAsset A v (path (ctx_file c)) (name (ctx_output c)) (base (ctx_output c))
                 True (world st) of
            (Inr img, w) \<Rightarrow> (Valid, img, st\<lparr>world := w\<rparr>)
          | (Inl err_message, w) \<Rightarrow>
              (Dirty, Null, addIssue c custom err_message (st\<lparr>world := w\<rparr>)))"
  using assms by (simp add: file_schema_def image_schema_def)

text \<open>An absolute URL; the resolver of the example counts its calls in the world.\<close>

theorem non_relative_allowed_witness:
  "(let A = \<lparr>isRelativePath = (\<lambda>p. \<not> prefix ''https://'' p),
              processAsset = (\<lambda>input origin name base isImage w.
                 (Inl (''ENOENT: no such file or directory '' @ input), Suc w))\<rparr>;
        c = \<lparr>ctx_path = [''cover''], ctx_file = \<lparr>path = ''content/a.md'', plain = None\<rparr>,
             ctx_output = \<lparr>name = ''[name]-[hash:8].[ext]'', base = ''/static/''\<rparr>\<rparr>;
        st = \<lparr>cache = Map.empty, issues = [], world = (0::nat)\<rparr>;
        url = ''https://example.com/a.png''
    in \<not> isRelativePath A url
       \<and> file_schema A \<lparr>file_allowNonRelativePath = Some True\<rparr> c url st = (Valid, Str url, st)
       \<and> file_schema A \<lparr>file_allowNonRelativePath = None\<rparr> c url st = (Valid, Str url, st)
       \<and> fst (snd (image_schema A \<lparr>image_allowNonRelativePath = None\<rparr> c url st)) = Null
       \<and> world (snd (snd (image_schema A \<lparr>image_allowNonRelativePath = None\<rparr> c url st))) = 1)"
proof -
  let ?A = "\<lparr>isRelativePath = (\<lambda>p. \<not> prefix ''https://'' p),
              processAsset = (\<lambda>input origin name base isImage w.
                 (Inl (''ENOENT: no such file or directory '' @ input), Suc w))\<rparr>
            :: nat assets"
  have h: "\<not> isRelativePath ?A ''https://example.com/a.png''"
    by simp
  show ?thesis
    using non_relative_allowed [OF h]
    by (simp add: Let_def addIssue_def)
qed

text \<open>Claim C5 as stated fails for images: the value returned for an allowed
  non-relative path is a record, not the input string.\<close>

theorem non_relative_allowed_counterexample:
  "(let A = \<lparr>isRelativePath = (\<lambda>p. \<not> prefix ''https://'' p),
              processAsset = (\<lambda>input origin name base isImage w.
                 (Inl (''ENOENT: no such file or directory '' @ input), Suc w))\<rparr>;
        c = \<lparr>ctx_path = [''cover''], ctx_file = \<lparr>path = ''content/a.md'', plain = None\<rparr>,
             ctx_output = \<lparr>name = ''[name]-[hash:8].[ext]'', base = ''/static/''\<rparr>\<rparr>;
        st = \<lparr>cache = Map.empty, issues = [], world = (0::nat)\<rparr>;
        url = ''https://example.com/a.png''
    in \<not> isRelativePath A url
       \<and> fst (snd (image_schema A \<lparr>image_allowNonRelativePath = Some True\<rparr> c url st)) \<noteq> Str url)"
  by (simp add: Let_def image_schema_def)

text \<open>
  Claim C6. Whenever the file or the image schema reaches the asset resolver (the path is
  relative, or non-relative paths are not allowed) and the resolver's promise is
  rejected, the field's value is \<^verbatim>\<open>null\<close>, exactly one issue is appended to the file's
  issue list, carrying the message of the rejection and located at the field's path, and
  the run ends normally with the status of a reported issue rather than that of an
  aborted parse, which is what lets the enclosing object go on with its other fields.
\<close>

theorem asset_failure:
  "((isRelativePath A v \<or> file_allowNonRelativePath fopts = Some False)
      \<and> processAsset A v (path (ctx_file c)) (name (ctx_output c)) (base (ctx_output c))
            False (world st) = (Inl msg, w)
    \<longrightarrow> file_schema A fopts c v st =
          (Dirty, Null,
           st\<lparr>world := w,
              issues := issues st @
                [\<lparr>code = custom, message = msg, issue_path = ctx_path c\<rparr>]\<rparr>))
   \<and> ((isRelativePath A v \<or> image_allowNonRelativePath iopts \<noteq> Some True)
      \<and> processAsset A v (path (ctx_file c)) (name (ctx_output c)) (base (ctx_output c))
            True (world st) = (Inl msg', w')
    \<longrightarrow> image_schema A iopts c v st =
          (Dirty, Null,
           st\<lparr>world := w',
              issues := issues st @
                [\<lparr>code = custom, message = msg', issue_path = ctx_path c\<rparr>]\<rparr>))"
  by (simp add: file_schema_resolves image_schema_resolves addIssue_def)

text \<open>A reference to a file that does not exist, under both schemas with their default
  options.\<close>

theorem asset_failure_witness:
  "(let A = \<lparr>isRelativePath = (\<lambda>p. \<not> prefix ''https://'' p),
              processAsset = (\<lambda>input origin name base isImage w.
                 (Inl (''ENOENT: no such file or directory '' @ input), Suc w))\<rparr>;
        c = \<lparr>ctx_path = [''cover''], ctx_file = \<lparr>path = ''content/a.md'', plain = None\<rparr>,
             ctx_output = \<lparr>name = ''[name]-[hash:8].[ext]'', base = ''/static/''\<rparr>\<rparr>;
        st = \<lparr>cache = Map.empty, issues = [], world = (0::nat)\<rparr>;
        report = \<lparr>code = custom, message = ''ENOENT: no such file or directory ./missing.png'',
                  issue_path = [''cover'']\<rparr>
    in isRelativePath A ''./missing.png''
       \<and> file_schema A \<lparr>file_allowNonRelativePath = None\<rparr> c ''./missing.png'' st =
           (Dirty, Null, \<lparr>cache = Map.empty, issues = [report], world = 1\<rparr>)
       \<and> image_schema A \<lparr>image_allowNonRelativePath = None\<rparr> c ''./missing.png'' st =
           (Dirty, Null, \<lparr>cache = Map.empty, issues = [report], world = 1\<rparr>))"
proof -
  let ?A = "\<lparr>isRelativePath = (\<lambda>p. \<not> prefix ''https://'' p),
              processAsset = (\<lambda>input origin name base isImage w.
                 (Inl (''ENOENT: no such file or directory '' @ input), Suc w))\<rparr>
            :: nat assets"
  let ?c = "\<lparr>ctx_path = [''cover''], ctx_file = \<lparr>path = ''content/a.md'', plain = None\<rparr>,
             ctx_output = \<lparr>name = ''[name]-[hash:8].[ext]'', base = ''/static/''\<rparr>\<rparr>"
  let ?st = "\<lparr>cache = Map.empty, issues = [], world = (0::nat)\<rparr>"
  have h: "isRelativePath ?A ''./missing.png''"
    by simp
  show ?thesis
    using h asset_failure [of ?A "''./missing.png''" "\<lparr>file_allowNonRelativePath = None\<rparr>" ?c ?st
        "''ENOENT: no such file or directory ./missing.png''" 1
        "\<lparr>image_allowNonRelativePath = None\<rparr>"
        "''ENOENT: no such file or directory ./missing.png''" 1]
    by (simp add: Let_def)
qed

text \<open>
  Claim C10. For a path that \<^verbatim>\<open>isRelativePath\<close> does not hold of, the image schema with
  \<^verbatim>\<open>allowNonRelativePath\<close> set returns the record whose \<^verbatim>\<open>src\<close> is the input string,
  whose four dimensions are 0 and whose \<^verbatim>\<open>blurDataURL\<close> is the empty string, for every
  asset resolver and without a change of state: nothing is computed from the image.
\<close>

theorem image_non_relative_record:
  assumes "\<not> isRelativePath A v"
  shows "image_schema A \<lparr>image_allowNonRelativePath = Some True\<rparr> c v st =
           (Valid,
            Img \<lparr>src = v, width = 0, height = 0, blurDataURL = '''', blurWidth = 0, blurHeight = 0\<rparr>,
            st)"
  using assms by (simp add: image_schema_def)

text \<open>Here the resolver would have answered with real dimensions, had it been asked.\<close>

theorem image_non_relative_record_witness:
  "(let A = \<lparr>isRelativePath = (\<lambda>p. \<not> prefix ''https://'' p),
              processAsset = (\<lambda>input origin name base isImage w.
                 (Inr (Img \<lparr>src = base @ input, width = 640, height = 480,
                            blurDataURL = ''data:image/webp;base64,AAAA'', blurWidth = 8,
                            blurHeight = 6\<rparr>), Suc w))\<rparr>;
        c = \<lparr>ctx_path = [''cover''], ctx_file = \<lparr>path = ''content/a.md'', plain = None\<rparr>,
             ctx_output = \<lparr>name = ''[name]-[hash:8].[ext]'', base = ''/static/''\<rparr>\<rparr>;
        st = \<lparr>cache = Map.empty, issues = [], world = (0::nat)\<rparr>
    in \<not> isRelativePath A ''https://example.com/a.png''
       \<and> image_schema A \<lparr>image_allowNonRelativePath = Some True\<rparr> c ''https://example.com/a.png'' st =
           (Valid,
            Img \<lparr>src = ''https://example.com/a.png'', width = 0, height = 0, blurDataURL = '''',
                 blurWidth = 0, blurHeight = 0\<rparr>,
            st))"
proof -
  let ?A = "\<lparr>isRelativePath = (\<lambda>p. \<not> prefix ''https://'' p),
              processAsset = (\<lambda>input origin name base isImage w.
                 (Inr (Img \<lparr>src = base @ input, width = 640, height = 480,
                            blurDataURL = ''data:image/webp;base64,AAAA'', blurWidth = 8,
                            blurHeight = 6\<rparr>), Suc w))\<rparr>
            :: nat assets"
  have h: "\<not> isRelativePath ?A ''https://example.com/a.png''"
    by simp
  show ?thesis
    using h image_non_relative_record [OF h] by (simp add: Let_def)
qed

subsection \<open>Excerpts\<close>

text \<open>With a non-negative end, \<^verbatim>\<open>slice(0, n)\<close> is a prefix.\<close>

lemma slice_prefix: "0 \<le> n \<Longrightarrow> slice s 0 n = take (nat n) s"
  by (auto simp add: slice_def Let_def min_def)

lemma excerpt_text:
  assumes "value = Some T \<or> (value = None \<and> plain (ctx_file c) = Some T)"
  shows "excerpt opts c value st =
           Inr (Valid, slice T 0 (case excerpt_length opts of None \<Rightarrow> 260 | Some n \<Rightarrow> n), st)"
  using assms by (auto simp add: excerpt_def Let_def)

text \<open>
  Claim C7. Let \<open>T\<close> be the declared value when there is one, and otherwise the plain
  text of the file. For every maximum length \<open>L \<ge> 0\<close> the excerpt schema returns the
  first \<open>min L (length T)\<close> characters of \<open>T\<close>, counted as they are stored, reports
  nothing and changes nothing. Leaving the length out is the same as asking for 260, and
  the excerpt of \<^verbatim>\<open>hello world\<close> with length 5 is \<^verbatim>\<open>hello\<close>.
\<close>

theorem excerpt_prefix:
  assumes "0 \<le> L" and "value = Some T \<or> (value = None \<and> plain (ctx_file c) = Some T)"
  shows "excerpt \<lparr>excerpt_length = Some L\<rparr> c value st =
           Inr (Valid, take (min (nat L) (length T)) T, st)
     \<and> excerpt \<lparr>excerpt_length = None\<rparr> c value st =
           excerpt \<lparr>excerpt_length = Some 260\<rparr> c value st
     \<and> excerpt \<lparr>excerpt_length = Some 5\<rparr> c (Some ''hello world'') st =
           Inr (Valid, ''hello'', st)"
proof -
  have "take (nat L) T = take (min (nat L) (length T)) T"
    by (simp add: min_def)
  then have a: "excerpt \<lparr>excerpt_length = Some L\<rparr> c value st =
           Inr (Valid, take (min (nat L) (length T)) T, st)"
    using assms by (simp add: excerpt_text slice_prefix)
  have b: "excerpt \<lparr>excerpt_length = None\<rparr> c value st =
           excerpt \<lparr>excerpt_length = Some 260\<rparr> c value st"
    by (simp add: excerpt_def)
  have c: "excerpt \<lparr>excerpt_length = Some 5\<rparr> c (Some ''hello world'') st =
           Inr (Valid, ''hello'', st)"
    by (simp add: excerpt_text slice_prefix)
  show ?thesis
    using a b c by simp
qed

text \<open>A file whose plain text has 19 characters: the field left out, a declared value
  shorter than the maximum, and the default length.\<close>

theorem excerpt_prefix_witness:
  "(let c = \<lparr>ctx_path = [''excerpt''],
              ctx_file = \<lparr>path = ''content/a.md'', plain = Some ''The quick brown fox''\<rparr>,
              ctx_output = \<lparr>name = ''[name]-[hash:8].[ext]'', base = ''/static/''\<rparr>\<rparr>;
        st = \<lparr>cache = Map.empty, issues = [], world = ()\<rparr>
    in (0::int) \<le> 9 \<and> plain (ctx_file c) = Some ''The quick brown fox''
       \<and> excerpt \<lparr>excerpt_length = Some 9\<rparr> c None st = Inr (Valid, ''The quick'', st)
       \<and> excerpt \<lparr>excerpt_length = Some 9\<rparr> c (Some ''short'') st = Inr (Valid, ''short'', st)
       \<and> excerpt \<lparr>excerpt_length = None\<rparr> c None st = Inr (Valid, ''The quick brown fox'', st))"
proof -
  let ?c = "\<lparr>ctx_path = [''excerpt''],
              ctx_file = \<lparr>path = ''content/a.md'', plain = Some ''The quick brown fox''\<rparr>,
              ctx_output = \<lparr>name = ''[name]-[hash:8].[ext]'', base = ''/static/''\<rparr>\<rparr>"
  let ?st = "\<lparr>cache = Map.empty, issues = [], world = ()\<rparr>"
  have h9: "(0::int) \<le> 9" and h260: "(0::int) \<le> 260"
    by simp_all
  have absent: "(None::string option) = Some ''The quick brown fox''
      \<or> ((None::string option) = None \<and> plain (ctx_file ?c) = Some ''The quick brown fox'')"
    by simp
  have declared: "Some ''short'' = Some ''short''
      \<or> (Some ''short'' = None \<and> plain (ctx_file ?c) = Some ''short'')"
    by simp
  show ?thesis
    using excerpt_prefix [OF h9 absent, of ?st] excerpt_prefix [OF h9 declared, of ?st]
      excerpt_prefix [OF h260 absent, of ?st]
    by (simp add: Let_def)
qed

text \<open>
  Claim C8 does not hold of the code. When the declared value is absent and the file has
  no plain text either, the fallback is skipped, the value is still \<^verbatim>\<open>null\<close>, and the
  call of \<^verbatim>\<open>slice\<close> on it throws: the transform ends with a \<^verbatim>\<open>TypeError\<close> instead
  of a string, whatever the options. This is the only way for the schema to fail, as for a
  data file with no excerpt field.
\<close>

theorem excerpt_absent_text_throws:
  "(excerpt opts c value st = Inl TypeError) = (value = None \<and> plain (ctx_file c) = None)
   \<and> excerpt \<lparr>excerpt_length = None\<rparr>
         \<lparr>ctx_path = [''excerpt''], ctx_file = \<lparr>path = ''content/site.json'', plain = None\<rparr>,
          ctx_output = \<lparr>name = ''[name]-[hash:8].[ext]'', base = ''/static/''\<rparr>\<rparr>
         None st = Inl TypeError"
  by (auto simp add: excerpt_def Let_def split: option.splits)

subsection \<open>Printing a date and reading it back\<close>

text \<open>Quotients by a positive number.\<close>

lemma div_bounds:
  fixes a b :: int
  assumes "0 < b"
  shows "b * (a div b) \<le> a" and "a < b * (a div b) + b"
proof -
  have "a = b * (a div b) + a mod b" by simp
  moreover have "0 \<le> a mod b" using assms by (rule pos_mod_sign)
  moreover have "a mod b < b" using assms by (rule pos_mod_bound)
  ultimately show "b * (a div b) \<le> a" and "a < b * (a div b) + b" by linarith+
qed

lemma div_pred:
  fixes y b :: int
  assumes "0 < b"
  shows "(y - 1) div b = y div b - (if y mod b = 0 then 1 else 0)"
proof -
  have nonneg: "0 \<le> y mod b" using assms by (rule pos_mod_sign)
  have below: "y mod b < b" using assms by (rule pos_mod_bound)
  have eq: "y = b * (y div b) + y mod b" by simp
  show ?thesis
  proof (cases "y mod b = 0")
    case True
    have "y - 1 = b * (y div b - 1) + (b - 1)"
      using eq True by (simp add: algebra_simps)
    then have "(y - 1) div b = y div b - 1"
      using assms by (intro int_div_pos_eq [of _ _ _ "b - 1"]) simp_all
    then show ?thesis using True by simp
  next
    case False
    have "y - 1 = b * (y div b) + (y mod b - 1)"
      using eq by (simp add: algebra_simps)
    moreover have "0 \<le> y mod b - 1" "y mod b - 1 < b"
      using nonneg below False by linarith+
    ultimately have "(y - 1) div b = y div b"
      by (intro int_div_pos_eq [of _ _ _ "y mod b - 1"])
    then show ?thesis using False by simp
  qed
qed

lemma mod_100_4: "(y::int) mod 100 = 0 \<Longrightarrow> y mod 4 = 0"
  using dvd_trans [of 4 100 y] by (simp add: dvd_eq_mod_eq_0)

lemma mod_400_100: "(y::int) mod 400 = 0 \<Longrightarrow> y mod 100 = 0"
  using dvd_trans [of 100 400 y] by (simp add: dvd_eq_mod_eq_0)

text \<open>Years: each one is 365 or 366 days long, and a year starts about every 365.2425
  days, which bounds the estimate in \<open>YearFromDay\<close>.\<close>

lemma DayFromYear_step: "DayFromYear (y + 1) = DayFromYear y + 365 + InLeapYear y"
proof -
  have a: "(y - 1968) div 4 = y div 4 - 492"
    "(y - 1969) div 4 = y div 4 - (if y mod 4 = 0 then 1 else 0) - 492"
    using div_pred [of 4 y] by simp_all
  have b: "(y - 1900) div 100 = y div 100 - 19"
    "(y - 1901) div 100 = y div 100 - (if y mod 100 = 0 then 1 else 0) - 19"
    using div_pred [of 100 y] by simp_all
  have c: "(y - 1600) div 400 = y div 400 - 4"
    "(y - 1601) div 400 = y div 400 - (if y mod 400 = 0 then 1 else 0) - 4"
    using div_pred [of 400 y] by simp_all
  have next_year: "DayFromYear (y + 1) =
      365 * (y - 1969) + (y - 1968) div 4 - (y - 1900) div 100 + (y - 1600) div 400"
    by (simp add: DayFromYear_def)
  show ?thesis
    unfolding next_year
    using mod_100_4 [of y] mod_400_100 [of y]
    by (simp add: DayFromYear_def InLeapYear_def a b c)
qed

lemma DayFromYear_upper: "400 * DayFromYear y \<le> 146097 * (y - 1970) + 589"
proof -
  define q4 where "q4 = (y - 1969) div 4"
  define q100 where "q100 = (y - 1901) div 100"
  define q400 where "q400 = (y - 1601) div 400"
  have "4 * q4 \<le> y - 1969" "y - 1901 < 100 * q100 + 100" "400 * q400 \<le> y - 1601"
    unfolding q4_def q100_def q400_def by (simp_all only: div_bounds zero_less_numeral)
  moreover have "DayFromYear y = 365 * (y - 1970) + q4 - q100 + q400"
    by (simp add: DayFromYear_def q4_def q100_def q400_def)
  ultimately show ?thesis by (simp add: algebra_simps)
qed

lemma DayFromYear_lower: "146097 * (y - 1970) - 506 \<le> 400 * DayFromYear y"
proof -
  define q4 where "q4 = (y - 1969) div 4"
  define q100 where "q100 = (y - 1901) div 100"
  define q400 where "q400 = (y - 1601) div 400"
  have "y - 1969 < 4 * q4 + 4" "100 * q100 \<le> y - 1901" "y - 1601 < 400 * q400 + 400"
    unfolding q4_def q100_def q400_def by (simp_all only: div_bounds zero_less_numeral)
  moreover have "DayFromYear y = 365 * (y - 1970) + q4 - q100 + q400"
    by (simp add: DayFromYear_def q4_def q100_def q400_def)
  ultimately show ?thesis by (simp add: algebra_simps)
qed

lemma InLeapYear_cases: "InLeapYear y = 0 \<or> InLeapYear y = 1"
  by (simp add: InLeapYear_def)

lemma DayFromYear_mono: "y \<le> y' \<Longrightarrow> DayFromYear y \<le> DayFromYear y'"
proof (induction "nat (y' - y)" arbitrary: y')
  case 0
  then show ?case by simp
next
  case (Suc n)
  then have "n = nat ((y' - 1) - y)" "y \<le> y' - 1" by linarith+
  then have "DayFromYear y \<le> DayFromYear (y' - 1)" using Suc.hyps(1) by blast
  moreover have "DayFromYear (y' - 1) \<le> DayFromYear y'"
    using DayFromYear_step [of "y' - 1"] InLeapYear_cases [of "y' - 1"] by auto
  ultimately show ?case by linarith
qed

lemma YearFromDay_bounds:
  "DayFromYear (YearFromDay d) \<le> d \<and> d < DayFromYear (YearFromDay d + 1)"
proof -
  define y where "y = 1970 + (400 * d) div 146097"
  have q: "146097 * (y - 1970) \<le> 400 * d" "400 * d < 146097 * (y - 1970) + 146097"
    using div_bounds [of 146097 "400 * d"] by (simp_all add: y_def)
  have low: "DayFromYear (y - 1) \<le> d"
    using DayFromYear_upper [of "y - 1"] q(1) by (simp add: algebra_simps)
  have high: "d < DayFromYear (y + 2)"
    using DayFromYear_lower [of "y + 2"] q(2) by (simp add: algebra_simps)
  have yfd: "YearFromDay d =
      (if DayFromYear (y + 1) \<le> d then y + 1 else if DayFromYear y \<le> d then y else y - 1)"
    by (simp add: YearFromDay_def y_def Let_def)
  show ?thesis
  proof (cases "DayFromYear (y + 1) \<le> d")
    case True
    then have eq: "YearFromDay d = y + 1" using yfd by simp
    have "YearFromDay d + 1 = y + 2" unfolding eq by simp
    then have "d < DayFromYear (YearFromDay d + 1)" using high by (simp only:)
    moreover have "DayFromYear (YearFromDay d) \<le> d" using True by (simp only: eq)
    ultimately show ?thesis by simp
  next
    case False
    then show ?thesis using low yfd by simp
  qed
qed

lemma YearFromDay_largest: "DayFromYear y \<le> d \<Longrightarrow> y \<le> YearFromDay d"
proof (rule ccontr)
  assume a: "DayFromYear y \<le> d" and "\<not> y \<le> YearFromDay d"
  then have "YearFromDay d + 1 \<le> y" by simp
  then have "DayFromYear (YearFromDay d + 1) \<le> DayFromYear y" by (rule DayFromYear_mono)
  then show False using a YearFromDay_bounds [of d] by linarith
qed

lemma day_within_year:
  "0 \<le> d - DayFromYear (YearFromDay d)
   \<and> d - DayFromYear (YearFromDay d) < 365 + InLeapYear (YearFromDay d)"
  using YearFromDay_bounds [of d] DayFromYear_step [of "YearFromDay d"] by linarith

lemma year_range:
  assumes "- 100000000 \<le> d" and "d \<le> 100000000"
  shows "- 271822 \<le> YearFromDay d \<and> YearFromDay d \<le> 275761"
proof -
  define y where "y = 1970 + (400 * d) div 146097"
  have q: "146097 * (y - 1970) \<le> 400 * d" "400 * d < 146097 * (y - 1970) + 146097"
    using div_bounds [of 146097 "400 * d"] by (simp_all add: y_def)
  have "- 271821 \<le> y" "y \<le> 275760"
    using q assms by (simp_all add: algebra_simps)
  moreover have "YearFromDay d = y + 1 \<or> YearFromDay d = y \<or> YearFromDay d = y - 1"
    by (simp add: YearFromDay_def y_def Let_def)
  ultimately show ?thesis by linarith
qed

text \<open>Months and days of the month.\<close>

lemma month_range:
  assumes "0 \<le> dwy" and "dwy < 365 + leap" and "leap = 0 \<or> leap = 1"
  shows "0 \<le> MonthFromDay dwy leap \<and> MonthFromDay dwy leap \<le> 11
     \<and> 1 \<le> DateFromDay dwy leap
     \<and> DateFromDay dwy leap \<le> DaysInMonth (MonthFromDay dwy leap) leap"
  using assms
  by (auto simp add: MonthFromDay_def DateFromDay_def DaysInMonth_def MonthStart_def)

lemma MakeDay_inverse:
  "MakeDay (YearFromDay d)
     (MonthFromDay (d - DayFromYear (YearFromDay d)) (InLeapYear (YearFromDay d)))
     (DateFromDay (d - DayFromYear (YearFromDay d)) (InLeapYear (YearFromDay d))) = d"
  by (simp add: MakeDay_def DateFromDay_def)

text \<open>The time within the day.\<close>

lemma MakeDate_inverse:
  "MakeDate (Day t) (MakeTime (HourFromTime t) (MinFromTime t) (SecFromTime t) (msFromTime t)) = t"
proof -
  define a where "a = t div 1000"
  define b where "b = a div 60"
  define c where "c = b div 60"
  define e where "e = c div 24"
  have b: "t div 60000 = b"
    using zdiv_zmult2_eq [of 60 t 1000] by (simp add: a_def b_def)
  have c: "t div 3600000 = c"
    using zdiv_zmult2_eq [of 60 t 60000] b by (simp add: c_def)
  have e: "t div 86400000 = e"
    using zdiv_zmult2_eq [of 24 t 3600000] c by (simp add: e_def)
  have "t = 1000 * a + t mod 1000" by (simp add: a_def)
  moreover have "a = 60 * b + a mod 60" by (simp add: b_def)
  moreover have "b = 60 * c + b mod 60" by (simp add: c_def)
  moreover have "c = 24 * e + c mod 24" by (simp add: e_def)
  ultimately have "t = e * 86400000 + ((c mod 24) * 3600000 + (b mod 60) * 60000 + (a mod 60) * 1000 + t mod 1000)"
    by linarith
  then show ?thesis
    by (simp add: MakeDate_def MakeTime_def Day_def HourFromTime_def MinFromTime_def
        SecFromTime_def msFromTime_def b c e a_def [symmetric])
qed

lemma time_fields:
  "0 \<le> HourFromTime t \<and> HourFromTime t \<le> 23 \<and> 0 \<le> MinFromTime t \<and> MinFromTime t \<le> 59
   \<and> 0 \<le> SecFromTime t \<and> SecFromTime t \<le> 59 \<and> 0 \<le> msFromTime t \<and> msFromTime t \<le> 999"
proof -
  have "HourFromTime t < 24" "MinFromTime t < 60" "SecFromTime t < 60" "msFromTime t < 1000"
    "0 \<le> HourFromTime t" "0 \<le> MinFromTime t" "0 \<le> SecFromTime t" "0 \<le> msFromTime t"
    by (simp_all add: HourFromTime_def MinFromTime_def SecFromTime_def msFromTime_def)
  then show ?thesis
    by linarith
qed

text \<open>Digits.\<close>

lemma digit_value_char: "0 \<le> k \<Longrightarrow> k < 10 \<Longrightarrow> digit_value (digit_char k) = Some k"
  by (simp add: digit_value_def digit_char_def)

lemma digit_char_not_sign:
  assumes "0 \<le> k" and "k < 10"
  shows "digit_char k \<noteq> CHR ''+''" and "digit_char k \<noteq> CHR ''-''"
proof -
  have v: "(of_char (digit_char k) :: int) = 48 + k"
    using assms by (simp add: digit_char_def)
  show "digit_char k \<noteq> CHR ''+''"
  proof
    assume "digit_char k = CHR ''+''"
    then have "(of_char (digit_char k) :: int) = of_char CHR ''+''" by simp
    then show False using v assms by simp
  qed
  show "digit_char k \<noteq> CHR ''-''"
  proof
    assume "digit_char k = CHR ''-''"
    then have "(of_char (digit_char k) :: int) = of_char CHR ''-''" by simp
    then show False using v assms by simp
  qed
qed

lemma take_digits_pad_more:
  "0 \<le> k \<Longrightarrow> k < 10 ^ n \<Longrightarrow>
     take_digits (n + m) acc (pad n k @ rest) = take_digits m (acc * 10 ^ n + k) rest"
proof (induction n arbitrary: k m rest)
  case 0
  then have "k = 0" by simp
  then show ?case by simp
next
  case (Suc n)
  have "10 * (k div 10) \<le> k" by (rule div_bounds) simp
  moreover have "k < 10 * 10 ^ n" using Suc.prems(2) by simp
  ultimately have "k div 10 < 10 ^ n" by linarith
  moreover have "0 \<le> k div 10" using Suc.prems(1) by simp
  ultimately have q: "0 \<le> k div 10" "k div 10 < 10 ^ n" by simp_all
  have r: "0 \<le> k mod 10" "k mod 10 < 10" by simp_all
  have "take_digits (Suc n + m) acc (pad (Suc n) k @ rest) =
        take_digits (n + Suc m) acc (pad n (k div 10) @ (digit_char (k mod 10) # rest))"
    by simp
  also have "\<dots> = take_digits (Suc m) (acc * 10 ^ n + k div 10) (digit_char (k mod 10) # rest)"
    using Suc.IH [OF q] by blast
  also have "\<dots> = take_digits m (10 * (acc * 10 ^ n + k div 10) + k mod 10) rest"
    using digit_value_char [OF r] by simp
  also have "10 * (acc * 10 ^ n + k div 10) + k mod 10 = acc * 10 ^ Suc n + k"
    by (simp add: algebra_simps)
  finally show ?case .
qed

lemma take_digits_pad:
  "0 \<le> k \<Longrightarrow> k < 10 ^ n \<Longrightarrow> take_digits n 0 (pad n k @ rest) = Some (k, rest)"
  using take_digits_pad_more [of k n 0 0 rest] by simp

lemma expect_Cons: "expect ch (ch # rest) = Some rest"
  by (simp add: expect_def)

lemma pad_first:
  "0 < n \<Longrightarrow> \<exists>d tl. 0 \<le> d \<and> d < 10 \<and> pad n k @ rest = digit_char d # tl"
proof (induction n arbitrary: k rest)
  case 0
  then show ?case by simp
next
  case (Suc n)
  show ?case
  proof (cases "n = 0")
    case True
    have "0 \<le> k mod 10 \<and> k mod 10 < 10 \<and> pad (Suc n) k @ rest = digit_char (k mod 10) # rest"
      using True by simp
    then show ?thesis by blast
  next
    case False
    then obtain d tl where "0 \<le> d" "d < 10"
      "pad n (k div 10) @ (digit_char (k mod 10) # rest) = digit_char d # tl"
      using Suc.IH [of "k div 10" "digit_char (k mod 10) # rest"] by auto
    then have "0 \<le> d \<and> d < 10 \<and> pad (Suc n) k @ rest = digit_char d # tl" by simp
    then show ?thesis by blast
  qed
qed

lemma parse_year_text:
  assumes "- 999999 \<le> y" and "y \<le> 999999"
  shows "parse_year (year_text y @ rest) = Some (y, rest)"
proof (cases "0 \<le> y \<and> y \<le> 9999")
  case True
  then have k: "0 \<le> y" "y < 10 ^ 4" by simp_all
  obtain d tl where d: "0 \<le> d" "d < 10" "pad 4 y @ rest = digit_char d # tl"
    using pad_first [of 4 y rest] by auto
  have "parse_year (pad 4 y @ rest) = take_digits 4 0 (pad 4 y @ rest)"
    using digit_char_not_sign [OF d(1,2)] by (simp add: parse_year_def d(3))
  then show ?thesis
    using True take_digits_pad [OF k, of rest] by (simp add: year_text_def)
next
  case False
  show ?thesis
  proof (cases "y < 0")
    case True
    then have k: "0 \<le> - y" "- y < 10 ^ 6" using assms by simp_all
    show ?thesis
      using True take_digits_pad [OF k, of rest]
      by (simp add: year_text_def parse_year_def)
  next
    case positive: False
    then have k: "0 \<le> y" "y < 10 ^ 6" using assms by simp_all
    show ?thesis
      using False positive take_digits_pad [OF k, of rest]
      by (simp add: year_text_def parse_year_def)
  qed
qed

text \<open>The string printed for a time value that a date can hold is read back as that time
  value.\<close>

lemma parse_toISOString:
  assumes "\<bar>t\<bar> \<le> 8640000000000000"
  shows "parse_date_time (Date_toISOString t) = Some t"
proof -
  define y where "y = YearFromDay (Day t)"
  define leap where "leap = InLeapYear y"
  define dwy where "dwy = Day t - DayFromYear y"
  define mo where "mo = MonthFromDay dwy leap"
  define d where "d = DateFromDay dwy leap"
  have day: "- 100000000 \<le> Day t" "Day t \<le> 100000000"
    using assms div_bounds [of 86400000 t] by (simp_all add: Day_def)
  have yr: "- 999999 \<le> y" "y \<le> 999999"
    using year_range [OF day] by (simp_all add: y_def)
  have within: "0 \<le> dwy" "dwy < 365 + leap"
    using day_within_year [of "Day t"] by (simp_all add: dwy_def leap_def y_def)
  have m: "0 \<le> mo" "mo \<le> 11" "1 \<le> d" "d \<le> DaysInMonth mo leap"
    using month_range [OF within] InLeapYear_cases [of y]
    by (simp_all add: mo_def d_def leap_def)
  have d31: "d \<le> 31"
    using m InLeapYear_cases [of y]
    by (auto simp add: DaysInMonth_def MonthStart_def leap_def split: if_splits)
  have f: "0 \<le> HourFromTime t" "HourFromTime t \<le> 23" "0 \<le> MinFromTime t"
    "MinFromTime t \<le> 59" "0 \<le> SecFromTime t" "SecFromTime t \<le> 59"
    "0 \<le> msFromTime t" "msFromTime t \<le> 999"
    using time_fields [of t] by simp_all
  have two: "take_digits 2 0 (pad 2 k @ rest) = Some (k, rest)" if "0 \<le> k" "k \<le> 59" for k rest
    using that by (intro take_digits_pad) simp_all
  have three: "take_digits 3 0 (pad 3 k @ rest) = Some (k, rest)" if "0 \<le> k" "k \<le> 999" for k rest
    using that by (intro take_digits_pad) simp_all
  have digits: "\<And>rest. take_digits 2 0 (pad 2 (mo + 1) @ rest) = Some (mo + 1, rest)"
    "\<And>rest. take_digits 2 0 (pad 2 d @ rest) = Some (d, rest)"
    "\<And>rest. take_digits 2 0 (pad 2 (HourFromTime t) @ rest) = Some (HourFromTime t, rest)"
    "\<And>rest. take_digits 2 0 (pad 2 (MinFromTime t) @ rest) = Some (MinFromTime t, rest)"
    "\<And>rest. take_digits 2 0 (pad 2 (SecFromTime t) @ rest) = Some (SecFromTime t, rest)"
    "\<And>rest. take_digits 3 0 (pad 3 (msFromTime t) @ rest) = Some (msFromTime t, rest)"
    using m d31 f by (simp_all add: two three)
  have printed: "Date_toISOString t =
      year_text y @ CHR ''-'' # pad 2 (mo + 1) @ CHR ''-'' # pad 2 d @ CHR ''T''
        # pad 2 (HourFromTime t) @ CHR '':'' # pad 2 (MinFromTime t) @ CHR '':''
        # pad 2 (SecFromTime t) @ CHR ''.'' # pad 3 (msFromTime t) @ [CHR ''Z'']"
    by (simp add: Date_toISOString_def Let_def y_def leap_def dwy_def mo_def d_def)
  have rebuilt: "MakeDate (MakeDay y mo d)
      (MakeTime (HourFromTime t) (MinFromTime t) (SecFromTime t) (msFromTime t)) = t"
    using MakeDay_inverse [of "Day t"] MakeDate_inverse [of t]
    by (simp add: y_def leap_def dwy_def mo_def d_def)
  show ?thesis
    unfolding printed parse_date_time_def
    using m f
    by (simp add: parse_year_text [OF yr] expect_Cons digits rebuilt leap_def)
qed

lemma Date_parse_clipped: "Date_parse other s = Some t \<Longrightarrow> \<bar>t\<bar> \<le> 8640000000000000"
  by (auto simp add: Date_parse_def TimeClip_def split: option.splits if_splits)

lemma Date_parse_toISOString:
  "\<bar>t\<bar> \<le> 8640000000000000 \<Longrightarrow> Date_parse other (Date_toISOString t) = Some t"
  by (simp add: Date_parse_def parse_toISOString TimeClip_def)

subsection \<open>Running a schema on its own output\<close>

lemma excerpt_rerun:
  assumes "case excerpt_length opts of None \<Rightarrow> True | Some n \<Rightarrow> 0 \<le> n"
    and "excerpt opts c value st = Inr (s, out, st')"
  shows "excerpt opts c (Some out) st' = Inr (Valid, out, st')"
proof -
  define len where "len = (case excerpt_length opts of None \<Rightarrow> 260 | Some n \<Rightarrow> n)"
  have len: "0 \<le> len"
    using assms(1) by (simp add: len_def split: option.splits)
  obtain source where out: "out = slice source 0 len" and st: "st' = st"
    using assms(2) by (auto simp add: excerpt_def Let_def len_def split: option.splits if_splits)
  have "slice out 0 len = out"
    using len by (simp add: out slice_prefix)
  then show ?thesis
    by (simp add: excerpt_def Let_def len_def [symmetric])
qed

lemma isodate_parsed:
  "Date_parse other v = Some t \<Longrightarrow> isodate eager other c v st = Inr (Valid, Date_toISOString t, st)"
  by (simp add: isodate_def refine_def string_check_def)

lemma isodate_unparsed:
  "Date_parse other v = None \<Longrightarrow>
     isodate eager other c v st = Inr (Dirty, v, addIssue c custom ''Invalid date string'' st)"
  by (simp add: isodate_def refine_def string_check_def)

lemma isodate_valid_run:
  assumes "isodate eager other c v st = Inr (Valid, out, st')"
  shows "\<exists>t. Date_parse other v = Some t \<and> out = Date_toISOString t \<and> st' = st"
proof (cases "Date_parse other v")
  case None
  then show ?thesis using assms by (simp add: isodate_unparsed)
next
  case (Some t)
  then show ?thesis using assms by (simp add: isodate_parsed)
qed

lemma isodate_rerun:
  assumes "isodate eager other c v st = Inr (Valid, out, st')"
  shows "isodate eager other c out st' = Inr (Valid, out, st')"
proof -
  obtain t where t: "Date_parse other v = Some t" "out = Date_toISOString t" "st' = st"
    using isodate_valid_run [OF assms] by blast
  have "Date_parse other out = Some t"
    using Date_parse_clipped [OF t(1)] by (simp add: t(2) Date_parse_toISOString)
  then show ?thesis
    by (simp add: isodate_parsed t(2,3))
qed

lemma slug_valid_run:
  assumes "slug eager by reserved c v st = (Valid, st')"
  shows "3 \<le> length v \<and> length v \<le> 200 \<and> slug_regex v \<and> v \<notin> set reserved"
    and "slug_key by v \<notin> dom (cache st)"
    and "st' = st\<lparr>cache := (cache st)(slug_key by v \<mapsto> path (ctx_file c))\<rparr>"
proof -
  show ok: "3 \<le> length v \<and> length v \<le> 200 \<and> slug_regex v \<and> v \<notin> set reserved"
    using assms
      slug_checks_fail(1) [where v = v and reserved = reserved and eager = eager and ?by = "by"
        and c = c and st = st]
    by fastforce
  show fresh: "slug_key by v \<notin> dom (cache st)"
  proof
    assume "slug_key by v \<in> dom (cache st)"
    then have "fst (slug eager by reserved c v st) = Dirty"
      using ok by (simp add: slug_checks_pass slug_reserve_taken addIssue_def)
    then show False using assms by simp
  qed
  show "st' = st\<lparr>cache := (cache st)(slug_key by v \<mapsto> path (ctx_file c))\<rparr>"
    using assms ok fresh by (simp add: slug_checks_pass slug_reserve_fresh)
qed

text \<open>
  Claim C3, as amended. The excerpt schema with a non-negative maximum length is
  idempotent: run again on the output of a run, in the same build context, it returns
  that output and reports nothing. So is the date schema: the timestamp it returns is
  read back by \<^verbatim>\<open>Date.parse\<close> as the same time value, so normalising the normalised
  timestamp returns the identical string and reports nothing. The slug schema is not: run
  again on the slug it has just accepted, in the same build context, it finds the key
  that its first run reserved and reports one duplicate-slug issue; the value and the
  cache are as they were.
\<close>

theorem rerun_on_output:
  "((case excerpt_length opts of None \<Rightarrow> True | Some n \<Rightarrow> 0 \<le> n)
      \<and> excerpt opts c declared st = Inr (s, out, st')
    \<longrightarrow> excerpt opts c (Some out) st' = Inr (Valid, out, st'))
   \<and> (isodate eager other c d st = Inr (Valid, stamp, st2)
    \<longrightarrow> isodate eager other c stamp st2 = Inr (Valid, stamp, st2))
   \<and> (slug eager by reserved c v st = (Valid, st1)
    \<longrightarrow> slug eager by reserved c v st1 =
          (Dirty,
           st1\<lparr>issues := issues st1 @
              [\<lparr>code = custom, message = duplicate_message v c, issue_path = ctx_path c\<rparr>]\<rparr>))"
proof -
  have again: "slug eager by reserved c v st1 =
          (Dirty,
           st1\<lparr>issues := issues st1 @
              [\<lparr>code = custom, message = duplicate_message v c, issue_path = ctx_path c\<rparr>]\<rparr>)"
    if run: "slug eager by reserved c v st = (Valid, st1)"
  proof -
    have "slug_key by v \<in> dom (cache st1)"
      using slug_valid_run(3) [OF run] by simp
    then show ?thesis
      using slug_valid_run(1) [OF run]
      by (simp add: slug_checks_pass slug_reserve_taken addIssue_def)
  qed
  show ?thesis
    using again excerpt_rerun [of opts c declared st s out st']
      isodate_rerun [of eager other c d st stamp st2]
    by simp
qed

text \<open>The runtime of the example reads the short form \<^verbatim>\<open>2024-01-01\<close> as midnight of
  that day.\<close>

theorem rerun_on_output_witness:
  "(let c = \<lparr>ctx_path = [''field''],
              ctx_file = \<lparr>path = ''content/a.md'', plain = Some ''The quick brown fox''\<rparr>,
              ctx_output = \<lparr>name = ''[name]-[hash:8].[ext]'', base = ''/static/''\<rparr>\<rparr>;
        st = \<lparr>cache = Map.empty, issues = [], world = ()\<rparr>;
        st1 = \<lparr>cache = [slug_key ''global'' ''my-post'' \<mapsto> ''content/a.md''], issues = [],
                world = ()\<rparr>;
        other = (\<lambda>s. if s = ''2024-01-01'' then Some 1704067200000 else None)
    in excerpt \<lparr>excerpt_length = Some 9\<rparr> c None st = Inr (Valid, ''The quick'', st)
       \<and> excerpt \<lparr>excerpt_length = Some 9\<rparr> c (Some ''The quick'') st = Inr (Valid, ''The quick'', st)
       \<and> isodate True other c ''2024-01-01'' st = Inr (Valid, ''2024-01-01T00:00:00.000Z'', st)
       \<and> isodate True other c ''2024-01-01T00:00:00.000Z'' st = Inr (Valid, ''2024-01-01T00:00:00.000Z'', st)
       \<and> slug True ''global'' [] c ''my-post'' st = (Valid, st1)
       \<and> fst (slug True ''global'' [] c ''my-post'' st1) = Dirty
       \<and> length (issues (snd (slug True ''global'' [] c ''my-post'' st1))) = 1
       \<and> cache (snd (slug True ''global'' [] c ''my-post'' st1)) = cache st1)"
proof -
  let ?c = "\<lparr>ctx_path = [''field''],
              ctx_file = \<lparr>path = ''content/a.md'', plain = Some ''The quick brown fox''\<rparr>,
              ctx_output = \<lparr>name = ''[name]-[hash:8].[ext]'', base = ''/static/''\<rparr>\<rparr>"
  let ?st = "\<lparr>cache = Map.empty, issues = [], world = ()\<rparr>"
  let ?st1 = "\<lparr>cache = [slug_key ''global'' ''my-post'' \<mapsto> ''content/a.md''], issues = [],
                world = ()\<rparr>"
  let ?other = "\<lambda>s. if s = ''2024-01-01'' then Some (1704067200000::int) else None"
  have e: "excerpt \<lparr>excerpt_length = Some 9\<rparr> ?c None ?st = Inr (Valid, ''The quick'', ?st)"
    by (simp add: excerpt_def slice_def)
  have short: "parse_date_time ''2024-01-01'' = None"
    by code_simp
  have printed: "Date_toISOString 1704067200000 = ''2024-01-01T00:00:00.000Z''"
    by code_simp
  have "Date_parse ?other ''2024-01-01'' = Some 1704067200000"
    by (simp add: Date_parse_def short TimeClip_def)
  then have d: "isodate True ?other ?c ''2024-01-01'' ?st = Inr (Valid, ''2024-01-01T00:00:00.000Z'', ?st)"
    by (simp add: isodate_parsed printed)
  have s: "slug True ''global'' [] ?c ''my-post'' ?st = (Valid, ?st1)"
    by (simp add: slug_def superRefine_def refine_def regex_check_def max_check_def
        min_check_def string_check_def slug_reserve_def slug_regex_def slug_char_def
        to_lower_def lower_or_digit_def)
  show ?thesis
    using e d s
      rerun_on_output [where opts = "\<lparr>excerpt_length = Some 9\<rparr>" and c = ?c and declared = None
        and st = ?st and s = Valid and out = "''The quick''" and st' = ?st and eager = True
        and other = ?other and d = "''2024-01-01''" and stamp = "''2024-01-01T00:00:00.000Z''"
        and ?st2.0 = ?st and ?by = "''global''" and reserved = "[]" and v = "''my-post''"
        and ?st1.0 = ?st1]
    by (simp add: Let_def)
qed

text \<open>Claim C3 as stated fails for the slug schema, whose second run on its own output
  reports an issue, and for the excerpt schema with a negative length, where each run
  removes another character.\<close>

theorem rerun_on_output_counterexample:
  "(let c = \<lparr>ctx_path = [''field''],
              ctx_file = \<lparr>path = ''content/a.md'', plain = None\<rparr>,
              ctx_output = \<lparr>name = ''[name]-[hash:8].[ext]'', base = ''/static/''\<rparr>\<rparr>;
        st = \<lparr>cache = Map.empty, issues = [], world = ()\<rparr>;
        r1 = slug False ''global'' [] c ''my-post'' st;
        r2 = slug False ''global'' [] c ''my-post'' (snd r1);
        e1 = slug True ''global'' [] c ''my-post'' st;
        e2 = slug True ''global'' [] c ''my-post'' (snd e1)
    in fst r1 = Valid \<and> issues (snd r1) = []
       \<and> fst r2 = Dirty \<and> length (issues (snd r2)) = 1
       \<and> fst e1 = Valid \<and> issues (snd e1) = []
       \<and> fst e2 = Dirty \<and> length (issues (snd e2)) = 1
       \<and> excerpt \<lparr>excerpt_length = Some (- 1)\<rparr> c (Some ''hello'') st = Inr (Valid, ''hell'', st)
       \<and> excerpt \<lparr>excerpt_length = Some (- 1)\<rparr> c (Some ''hell'') st = Inr (Valid, ''hel'', st))"
  by (simp add: Let_def slug_def superRefine_def refine_def regex_check_def max_check_def
        min_check_def string_check_def slug_reserve_def slug_regex_def slug_char_def
        to_lower_def lower_or_digit_def addIssue_def excerpt_def slice_def)

end
